theory Spec2Isabelle
  imports Main
begin

section \<open>Kafka-Cascade: the CascadeService class\<close>

text \<open>
  A shallow embedding of \<^verbatim>\<open>kafka-cascade/src/cascadeService.ts\<close>. The class extends
  Node's \<^verbatim>\<open>EventEmitter\<close> and coordinates a \<^verbatim>\<open>CascadeProducer\<close> and a
  \<^verbatim>\<open>CascadeConsumer\<close>, whose sources are not part of the files at hand.

  \<^item> The fields a method reads or writes form the record \<open>service\<close>; a method takes
    the service and returns the updated one.
  \<^item> What a method does to the outside (calls on the producer, the consumer and the
    admin client, events, console output, user callbacks) is returned as a list of
    \<open>action\<close>s in the order the code performs them.
  \<^item> The outcome of each call on a collaborator is a parameter (\<open>env\<close>): it either
    returns or throws (an awaited promise that rejects is a throw at the \<^verbatim>\<open>await\<close>).
  \<^item> A promise returned by a method ends \<open>Resolved\<close>, \<open>Rejected\<close> or stays
    \<open>Unsettled\<close> (neither \<^verbatim>\<open>resolve\<close> nor \<^verbatim>\<open>reject\<close> is ever called).
  \<^item> JavaScript numbers are taken at integer values (\<open>int\<close>), in the range where
    they are exact and print as plain decimals; arrays are unbounded lists.
  \<^item> User code called back by the class (listeners, \<^verbatim>\<open>successCB\<close>, \<^verbatim>\<open>dlqCB\<close>) is
    taken to return normally.

  The repository holds a second, earlier copy of the class (nine event names, no
  admin registration, \<^verbatim>\<open>connect\<close> through \<^verbatim>\<open>Promise.all\<close>, unguarded
  \<^verbatim>\<open>pause\<close>/\<^verbatim>\<open>resume\<close> stubs). The embedding follows the current file; the earlier
  copy's \<^verbatim>\<open>setRetryLevels(count)\<close> is exactly the synchronous first part of the
  current one (\<open>resize_levels\<close> below).
\<close>

subsection \<open>Values\<close>

text \<open>A callback function, by its identity.\<close>

type_synonym callback = nat

text \<open>
  A message: its payload and the cascade metadata \<^verbatim>\<open>retries\<close> (absent on a message that
  has never been retried).
\<close>

record message =
  payload :: string
  retries_hdr :: "nat option"

text \<open>
  Thrown values and event arguments. A value thrown (or rejected with) by a
  collaborator is given by the string \<^verbatim>\<open>'' + error\<close> renders it as (\<open>Thrown\<close>).
  \<open>ERR_UNHANDLED_ERROR a\<close> is the exception Node's \<^verbatim>\<open>emit\<close> throws for an \<^verbatim>\<open>error\<close>
  event with argument \<open>a\<close> that has no listener; its message text holds
  \<^verbatim>\<open>util.inspect(a)\<close> and is not spelled out. An event argument is absent, a string, a
  message, or (\<open>Concat\<close>) a string followed by the text of such an exception.
\<close>

datatype err = Thrown string | ERR_UNHANDLED_ERROR arg
  and arg = NoArg | Str string | Msg message | Concat string err

text \<open>\<^verbatim>\<open>PREFIX + error\<close>, the argument of the \<^verbatim>\<open>error\<close> events of this class.\<close>

fun error_message :: "string \<Rightarrow> err \<Rightarrow> arg" where
  "error_message prefix (Thrown e) = Str (prefix @ e)"
| "error_message prefix (ERR_UNHANDLED_ERROR a) = Concat prefix (ERR_UNHANDLED_ERROR a)"

datatype val = VTrue | VUndefined | VStatus string

datatype outcome = Resolved val | Rejected err | Unsettled

record options =
  timeoutLimit :: "int list option"
  batchLimit :: "int list"

subsection \<open>The producer's state\<close>

text \<open>
  Modelled from the spec: the class \<^verbatim>\<open>CascadeProducer\<close> (\<^verbatim>\<open>./cascadeProducer\<close>) is
  missing from the sources. The spec gives it the ordered list of retry-level topics
  and the producer-side pause flag \<^verbatim>\<open>paused\<close>, which the service reads.
\<close>

record producer =
  retryTopics :: "string list"
  paused :: bool

text \<open>
  Modelled from the spec: \<^verbatim>\<open>CascadeProducer.setRetryTopics(topics, options?)\<close> is missing
  from the sources; the spec describes it as a pure assignment that replaces the list
  used for routing decisions, the options not being interpreted by the cascade logic.
\<close>

definition setRetryTopics :: "string list \<Rightarrow> options option \<Rightarrow> producer \<Rightarrow> producer" where
  "setRetryTopics topicsArr opts p = p\<lparr>retryTopics := topicsArr\<rparr>"

text \<open>
  Modelled from the spec: \<^verbatim>\<open>CascadeProducer.pause()\<close> and \<^verbatim>\<open>resume()\<close> are missing from
  the sources; the spec has them switch the producer-side pause flag between
  \<^verbatim>\<open>Paused\<close> and \<^verbatim>\<open>Running\<close>.
\<close>

definition producer_pause :: "producer \<Rightarrow> producer" where
  "producer_pause p = p\<lparr>paused := True\<rparr>"

definition producer_resume :: "producer \<Rightarrow> producer" where
  "producer_resume p = p\<lparr>paused := False\<rparr>"

subsection \<open>The service's state and its constructor\<close>

text \<open>
  \<open>listeners\<close> is the listener table the class inherits from \<^verbatim>\<open>EventEmitter\<close>: the
  registered (event name, callback) pairs in registration order.
\<close>

record service =
  topic :: string
  retries :: int
  topicsArr :: "string list"
  producer :: producer
  listeners :: "(string \<times> callback) list"

text \<open>The field initialiser \<^verbatim>\<open>events = [...]\<close>.\<close>

definition events :: "string list" where
  "events = [''connect'', ''disconnect'', ''run'', ''stop'', ''pause'', ''resume'',
     ''receive'', ''success'', ''retry'', ''dlq'', ''error'', ''serviceError'']"

text \<open>
  The constructor: \<^verbatim>\<open>retries = 0\<close>, \<^verbatim>\<open>topicsArr = []\<close>, a new producer and consumer.
  The listeners it registers are on the producer and the consumer, not on the service.
  Modelled from the spec: a new producer has no retry levels and is not paused.
\<close>

definition CascadeService :: "string \<Rightarrow> service" where
  "CascadeService t =
     \<lparr>topic = t, retries = 0, topicsArr = [],
      producer = \<lparr>retryTopics = [], paused = False\<rparr>, listeners = []\<rparr>"

subsection \<open>Calls on collaborators and the trace\<close>

datatype call =
    ProducerConnect | ConsumerConnect
  | ProducerStop | ProducerDisconnect | ConsumerDisconnect | ConsumerStop
  | ConsumerPause | ProducerPause | ConsumerResume | ProducerResume
  | ConsumerRun | ProducerSend message
  | KafkaAdmin | AdminConnect | AdminCreateTopics "string list" | NewRegExp
  | AdminListTopics | AdminDisconnect
  | SetRetryTopics "string list" "options option"
  | SuccessCB message | DlqCB message
  | Publish string message

text \<open>
  What a method does, in order: a call on a collaborator or a user callback begins
  (\<open>Call\<close>) and then returns or throws; an event is dispatched (\<open>Emit\<close>) and each of
  its listeners is invoked; \<^verbatim>\<open>emit('error', ...)\<close> throws for want of a listener
  (\<open>EmitThrew\<close>); a line is written to the console (\<open>Log\<close>).
\<close>

datatype action =
    Call call
  | Returned call
  | Threw call err
  | Emit string arg
  | Invoke callback arg
  | EmitThrew err
  | Log string

text \<open>
  The environment of one method call: which calls on collaborators throw (or reject),
  and the status \<^verbatim>\<open>consumer.run\<close> resolves to.
\<close>

record env =
  throws :: "call \<Rightarrow> err option"
  run_status :: string

definition all_ok :: env where
  "all_ok = \<lparr>throws = (\<lambda>c. None), run_status = ''''\<rparr>"

definition failing :: "call \<Rightarrow> err \<Rightarrow> env" where
  "failing c e = \<lparr>throws = (\<lambda>c'. if c' = c then Some e else None), run_status = ''''\<rparr>"

text \<open>
  A computation inside a \<^verbatim>\<open>try\<close> block: the actions performed, and either the thrown
  value (the rest of the block is skipped) or the result.
\<close>

type_synonym 'a comp = "action list \<times> (err + 'a)"

definition ret :: "'a \<Rightarrow> 'a comp" where
  "ret x = ([], Inr x)"

definition and_then :: "'a comp \<Rightarrow> ('a \<Rightarrow> 'b comp) \<Rightarrow> 'b comp" where
  "and_then m f =
     (case m of
        (tr, Inl e) \<Rightarrow> (tr, Inl e)
      | (tr, Inr x) \<Rightarrow> (case f x of (tr', r) \<Rightarrow> (tr @ tr', r)))"

text \<open>A call on a collaborator (awaited where the collaborator returns a promise).\<close>

definition await :: "env \<Rightarrow> call \<Rightarrow> unit comp" where
  "await en c =
     (case throws en c of
        None \<Rightarrow> ([Call c, Returned c], Inr ())
      | Some e \<Rightarrow> ([Call c, Threw c e], Inl e))"

text \<open>
  A call that cannot fail: a method of the producer modelled from the spec as a plain
  state update, or a user callback (\<^verbatim>\<open>successCB\<close>, \<^verbatim>\<open>dlqCB\<close>), taken to return
  normally like the listeners.
\<close>

definition invoke :: "call \<Rightarrow> unit comp" where
  "invoke c = ([Call c, Returned c], Inr ())"

definition log :: "string \<Rightarrow> unit comp" where
  "log s = ([Log s], Inr ())"

subsection \<open>EventEmitter.emit\<close>

text \<open>
  \<^verbatim>\<open>const EventEmitter = require('events')\<close>: Node's emitter. \<^verbatim>\<open>emit(name, arg)\<close> calls
  the listeners registered for \<^verbatim>\<open>name\<close> in registration order. One name is special:
  when \<^verbatim>\<open>'error'\<close> is emitted and no listener is registered for it, \<^verbatim>\<open>emit\<close> throws
  (for an argument that is not an \<^verbatim>\<open>Error\<close> object, an \<^verbatim>\<open>ERR_UNHANDLED_ERROR\<close> whose
  context is the argument). Listeners are user code; they are taken to return normally.
\<close>

definition listeners_of :: "string \<Rightarrow> service \<Rightarrow> callback list" where
  "listeners_of ev s = map snd (filter (\<lambda>l. fst l = ev) (listeners s))"

definition emit :: "string \<Rightarrow> arg \<Rightarrow> service \<Rightarrow> unit comp" where
  "emit ev a s =
     (if ev = ''error'' \<and> listeners_of ev s = []
      then ([EmitThrew (ERR_UNHANDLED_ERROR a)], Inl (ERR_UNHANDLED_ERROR a))
      else (Emit ev a # map (\<lambda>cb. Invoke cb a) (listeners_of ev s), Inr ()))"

text \<open>
  The shape every lifecycle method shares:
  \<^verbatim>\<open>new Promise(async (resolve, reject) => { try { BODY; resolve(v) }
       catch(error) { this.emit('error', PREFIX + error); reject(error) } })\<close>.
  When the \<^verbatim>\<open>emit\<close> in the handler throws, the \<^verbatim>\<open>async\<close> executor ends with that
  exception, \<^verbatim>\<open>reject\<close> is never reached and the promise stays unsettled.
\<close>

definition settle :: "string \<Rightarrow> service \<Rightarrow> val comp \<Rightarrow> action list \<times> outcome" where
  "settle prefix s m =
     (case m of
        (tr, Inr v) \<Rightarrow> (tr, Resolved v)
      | (tr, Inl e) \<Rightarrow>
          (case emit ''error'' (error_message prefix e) s of
             (tr', Inr _) \<Rightarrow> (tr @ tr', Rejected e)
           | (tr', Inl _) \<Rightarrow> (tr @ tr', Unsettled)))"

subsection \<open>setRetryLevels\<close>

text \<open>The decimal digits of a non-negative integer, as \<^verbatim>\<open>'' + n\<close> gives them.\<close>

function digits :: "nat \<Rightarrow> string" where
  "digits n = (if n < 10 then [''0123456789'' ! n] else digits (n div 10) @ [''0123456789'' ! (n mod 10)])"
  by pat_completeness auto
termination
  by (relation "measure id") auto

declare digits.simps [simp del]

definition toString :: "int \<Rightarrow> string" where
  "toString i = (if i < 0 then ''-'' @ digits (nat (- i)) else digits (nat i))"

text \<open>
  \<^verbatim>\<open>for(let i = 0; i < diff; i++) this.topicsArr.pop()\<close>: \<^verbatim>\<open>pop\<close> removes the last
  element and does nothing on an empty array.
\<close>

fun pop_times :: "nat \<Rightarrow> 'a list \<Rightarrow> 'a list" where
  "pop_times 0 xs = xs"
| "pop_times (Suc n) xs = pop_times n (butlast xs)"

text \<open>
  \<^verbatim>\<open>for(let i = this.retries; i < count; i++)
       this.topicsArr.push(this.topic + '-cascade-retry-' + (i+1))\<close>
\<close>

function push_levels :: "string \<Rightarrow> int \<Rightarrow> int \<Rightarrow> string list \<Rightarrow> string list" where
  "push_levels t i count xs =
     (if i < count
      then push_levels t (i + 1) count (xs @ [t @ ''-cascade-retry-'' @ toString (i + 1)])
      else xs)"
  by pat_completeness auto
termination
  by (relation "measure (\<lambda>(t, i, count, xs). nat (count - i))") auto

declare push_levels.simps [simp del]

text \<open>
  The synchronous first part of the method (up to \<^verbatim>\<open>this.retries = count\<close>): resize
  the array in place, hand it to the producer, store the count.
\<close>

definition resize_levels :: "int \<Rightarrow> options option \<Rightarrow> service \<Rightarrow> service" where
  "resize_levels count opts s =
     (let arr = (if int (length (topicsArr s)) > count
                 then pop_times (nat (int (length (topicsArr s)) - count)) (topicsArr s)
                 else push_levels (topic s) (retries s) count (topicsArr s))
      in s\<lparr>topicsArr := arr,
           producer := setRetryTopics arr opts (producer s),
           retries := count\<rparr>)"

text \<open>
  The second part: pre-register the topics through an admin client, log what the
  broker lists, and resolve from a 10 ms timer. What the first log line prints after
  its label depends on the broker's topic list and is left out.
\<close>

definition register_topics :: "env \<Rightarrow> service \<Rightarrow> val comp" where
  "register_topics en s =
     and_then (await en KafkaAdmin) (\<lambda>_.
     and_then (await en AdminConnect) (\<lambda>_.
     and_then (await en (AdminCreateTopics (topicsArr s))) (\<lambda>_.
     and_then (await en NewRegExp) (\<lambda>_.
     and_then (await en AdminListTopics) (\<lambda>_.
     and_then (log ''topics registered ='') (\<lambda>_.
     and_then (await en AdminDisconnect) (\<lambda>_.
     and_then (log ''Registered topics with Kafka...'') (\<lambda>_.
     ret VTrue))))))))"

definition setRetryLevels ::
  "env \<Rightarrow> int \<Rightarrow> options option \<Rightarrow> service \<Rightarrow> service \<times> action list \<times> outcome" where
  "setRetryLevels en count opts s =
     (let s' = resize_levels count opts s
      in (s', settle ''Error in cascade.setRetryLevels(): '' s'
                (and_then (invoke (SetRetryTopics (topicsArr s') opts)) (\<lambda>_.
                 register_topics en s'))))"

subsection \<open>connect, disconnect, run, stop\<close>

definition connect :: "env \<Rightarrow> service \<Rightarrow> action list \<times> outcome" where
  "connect en s =
     settle ''Error in cascade.connect(): '' s
       (and_then (await en ProducerConnect) (\<lambda>_.
        and_then (await en ConsumerConnect) (\<lambda>_.
        and_then (emit ''connect'' NoArg s) (\<lambda>_.
        ret VTrue))))"

definition disconnect :: "env \<Rightarrow> service \<Rightarrow> action list \<times> outcome" where
  "disconnect en s =
     settle ''Error in cascade.disconnect(): '' s
       (and_then (await en ProducerStop) (\<lambda>_.
        and_then (await en ProducerDisconnect) (\<lambda>_.
        and_then (await en ConsumerDisconnect) (\<lambda>_.
        and_then (emit ''disconnect'' NoArg s) (\<lambda>_.
        ret VTrue)))))"

text \<open>
  \<^verbatim>\<open>run()\<close> hands three callbacks to \<^verbatim>\<open>consumer.run\<close>: the service callback and the
  two arrow functions below, which the consumer calls later, once per message outcome.
\<close>

definition run :: "env \<Rightarrow> service \<Rightarrow> action list \<times> outcome" where
  "run en s =
     settle ''Error in cascade.run(): '' s
       (and_then (await en ConsumerRun) (\<lambda>_.
        and_then (emit ''run'' NoArg s) (\<lambda>_.
        ret (VStatus (run_status en)))))"

text \<open>\<^verbatim>\<open>(msg) => { this.emit('success', msg); this.successCB(msg) }\<close>\<close>

definition run_onSuccess :: "service \<Rightarrow> message \<Rightarrow> unit comp" where
  "run_onSuccess s msg =
     and_then (emit ''success'' (Msg msg) s) (\<lambda>_. invoke (SuccessCB msg))"

text \<open>
  \<^verbatim>\<open>async (msg) => { try { await this.producer.send(msg); }
       catch(error) { this.emit('error', 'Error in cascade producer.send(): ' + error); } }\<close>
  The promise of this \<^verbatim>\<open>async\<close> function resolves when the body ends and rejects with
  whatever the body throws, the handler included.
\<close>

definition run_onFailure :: "env \<Rightarrow> service \<Rightarrow> message \<Rightarrow> action list \<times> outcome" where
  "run_onFailure en s msg =
     (case await en (ProducerSend msg) of
        (tr, Inr _) \<Rightarrow> (tr, Resolved VUndefined)
      | (tr, Inl e) \<Rightarrow>
          (case emit ''error'' (error_message ''Error in cascade producer.send(): '' e) s of
             (tr', Inr _) \<Rightarrow> (tr @ tr', Resolved VUndefined)
           | (tr', Inl u) \<Rightarrow> (tr @ tr', Rejected u)))"

definition stop :: "env \<Rightarrow> service \<Rightarrow> action list \<times> outcome" where
  "stop en s =
     settle ''Error in cascade.stop(): '' s
       (and_then (await en ConsumerStop) (\<lambda>_.
        and_then (await en ProducerStop) (\<lambda>_.
        and_then (emit ''stop'' NoArg s) (\<lambda>_.
        ret VTrue))))"

subsection \<open>pause, paused, resume\<close>

text \<open>
  \<^verbatim>\<open>await this.consumer.pause(); this.producer.pause();\<close>: the consumer's pause is
  awaited and may reject; the producer's is a synchronous call, modelled from the spec as
  the plain switch of its flag.
\<close>

definition pause :: "env \<Rightarrow> service \<Rightarrow> service \<times> action list \<times> outcome" where
  "pause en s =
     (if \<not> paused (producer s)
      then (let s' = (if throws en ConsumerPause = None
                      then s\<lparr>producer := producer_pause (producer s)\<rparr> else s)
            in (s', settle ''Error in cascade.pause(): '' s'
                      (and_then (await en ConsumerPause) (\<lambda>_.
                       and_then (invoke ProducerPause) (\<lambda>_.
                       and_then (emit ''pause'' NoArg s') (\<lambda>_.
                       ret VTrue))))))
      else (s, [Log ''cascade.pause() called while service is already paused!''],
            Resolved VUndefined))"

definition service_paused :: "service \<Rightarrow> bool" where
  "service_paused s = paused (producer s)"

text \<open>
  \<^verbatim>\<open>await this.consumer.resume(); await this.producer.resume();\<close>: both are awaited
  and either may reject, which takes the method to its handler. Modelled from the
  spec: the producer's flag is switched when its \<^verbatim>\<open>resume()\<close> has returned.
\<close>

definition resume :: "env \<Rightarrow> service \<Rightarrow> service \<times> action list \<times> outcome" where
  "resume en s =
     (if paused (producer s)
      then (let s' = (if throws en ConsumerResume = None \<and> throws en ProducerResume = None
                      then s\<lparr>producer := producer_resume (producer s)\<rparr> else s)
            in (s', settle ''Error in cascade.resume(): '' s'
                      (and_then (await en ConsumerResume) (\<lambda>_.
                       and_then (await en ProducerResume) (\<lambda>_.
                       and_then (emit ''resume'' NoArg s') (\<lambda>_.
                       ret VTrue))))))
      else (s, [Log ''cascade.resume() called while service is already running!''],
            Resolved VUndefined))"

subsection \<open>on\<close>

text \<open>
  \<^verbatim>\<open>if(!this.events.includes(event)) throw new Error('Unknown event: ' + event);
   super.on(event, callback);\<close>
  The result is the service afterwards and the error thrown, if any.
\<close>

definition on :: "string \<Rightarrow> callback \<Rightarrow> service \<Rightarrow> service \<times> err option" where
  "on event cb s =
     (if event \<notin> set events
      then (s, Some (Thrown (''Error: Unknown event: '' @ event)))
      else (s\<lparr>listeners := listeners s @ [(event, cb)]\<rparr>, None))"

subsection \<open>Histories of calls\<close>

datatype op =
    Connect | Disconnect | SetRetryLevels int "options option" | Run | Stop
  | Pause | Resume | On string callback

fun exec :: "env \<Rightarrow> op \<Rightarrow> service \<Rightarrow> service" where
  "exec en Connect s = s"
| "exec en Disconnect s = s"
| "exec en (SetRetryLevels count opts) s = fst (setRetryLevels en count opts s)"
| "exec en Run s = s"
| "exec en Stop s = s"
| "exec en Pause s = fst (pause en s)"
| "exec en Resume s = fst (resume en s)"
| "exec en (On event cb) s = fst (on event cb s)"

fun execs :: "(env \<times> op) list \<Rightarrow> service \<Rightarrow> service" where
  "execs [] s = s"
| "execs (x # xs) s = execs xs (exec (fst x) (snd x) s)"

text \<open>
  The configuration surface gives \<^verbatim>\<open>setRetryLevels\<close> a non-negative integer count.
\<close>

fun valid_op :: "op \<Rightarrow> bool" where
  "valid_op (SetRetryLevels count opts) = (0 \<le> count)"
| "valid_op _ = True"

definition valid_history :: "(env \<times> op) list \<Rightarrow> bool" where
  "valid_history h = list_all (\<lambda>x. valid_op (snd x)) h"

text \<open>The naming convention in the spec's words: level \<open>i + 1\<close> at index \<open>i\<close>.\<close>

definition spec_level_names :: "string \<Rightarrow> nat \<Rightarrow> string list" where
  "spec_level_names t n = map (\<lambda>i. t @ ''-cascade-retry-'' @ toString (int i + 1)) [0..<n]"

text \<open>
  The first \<open>a\<close> in a trace comes before every \<open>b\<close>: each occurrence of \<open>b\<close> has an
  \<open>a\<close> at an earlier position (lemma \<open>precedes_index\<close>).
\<close>

fun precedes :: "'a \<Rightarrow> 'a \<Rightarrow> 'a list \<Rightarrow> bool" where
  "precedes a b [] = True"
| "precedes a b (x # xs) = (if x = a then True else if x = b then False else precedes a b xs)"

text \<open>
  The state the resize loops rely on: \<^verbatim>\<open>retries\<close> is the length of \<^verbatim>\<open>topicsArr\<close>, and
  the array holds the level names in order.
\<close>

definition consistent :: "service \<Rightarrow> bool" where
  "consistent s \<longleftrightarrow>
     retries s = int (length (topicsArr s)) \<and>
     topicsArr s = spec_level_names (topic s) (length (topicsArr s))"

subsection \<open>CascadeProducer.send\<close>

text \<open>
  Modelled from the spec: \<^verbatim>\<open>CascadeProducer.send(message)\<close> is missing from the sources.
  In the spec's words it reads \<^verbatim>\<open>message.retries\<close> (0 if absent); if that is below the
  number of retry levels it publishes the message to the level at that index with
  \<^verbatim>\<open>retries\<close> incremented by one and emits \<^verbatim>\<open>retry\<close> with the outgoing message;
  otherwise it hands the message to the dead-letter callback and emits \<^verbatim>\<open>dlq\<close>. A
  publish failure is caught and re-emitted as \<^verbatim>\<open>error\<close>. The events are those of the
  producer's own emitter.
\<close>

definition send :: "env \<Rightarrow> message \<Rightarrow> producer \<Rightarrow> action list" where
  "send en msg p =
     (let k = (case retries_hdr msg of None \<Rightarrow> 0 | Some r \<Rightarrow> r)
      in if k < length (retryTopics p)
         then (let out = msg\<lparr>retries_hdr := Some (k + 1)\<rparr>
               in case await en (Publish (retryTopics p ! k) out) of
                    (tr, Inr _) \<Rightarrow> tr @ [Emit ''retry'' (Msg out)]
                  | (tr, Inl e) \<Rightarrow> tr @ [Emit ''error'' (error_message [] e)])
         else [Call (DlqCB msg), Returned (DlqCB msg), Emit ''dlq'' (Msg msg)])"

subsection \<open>The first failing call of a sequence\<close>

text \<open>
  Used to state what a \<^verbatim>\<open>try\<close> block of awaited calls ends with: the value thrown by
  the first call of the sequence that throws, if any.
\<close>

fun first_failure :: "env \<Rightarrow> call list \<Rightarrow> err option" where
  "first_failure en [] = None"
| "first_failure en (c # cs) =
     (case throws en c of Some e \<Rightarrow> Some e | None \<Rightarrow> first_failure en cs)"

section \<open>Properties\<close>

subsection \<open>The resize loops\<close>

lemma pop_times_take: "pop_times n xs = take (length xs - n) xs"
proof (induction n arbitrary: xs)
  case 0
  show ?case by simp
next
  case (Suc n)
  have "pop_times (Suc n) xs = take (length (butlast xs) - n) (butlast xs)"
    by (simp add: Suc)
  also have "\<dots> = take (length xs - Suc n) xs"
    by (simp add: butlast_conv_take min_def)
  finally show ?case .
qed

lemma push_levels_append:
  "0 \<le> i \<Longrightarrow> push_levels t i count xs =
     xs @ map (\<lambda>j. t @ ''-cascade-retry-'' @ toString (int j + 1)) [nat i..<nat count]"
proof (induction t i count xs rule: push_levels.induct)
  case (1 t i count xs)
  show ?case
  proof (cases "i < count")
    case True
    have step: "push_levels t i count xs
        = push_levels t (i + 1) count (xs @ [t @ ''-cascade-retry-'' @ toString (i + 1)])"
      using True by (subst push_levels.simps) simp
    have ih: "push_levels t (i + 1) count (xs @ [t @ ''-cascade-retry-'' @ toString (i + 1)])
        = (xs @ [t @ ''-cascade-retry-'' @ toString (i + 1)])
          @ map (\<lambda>j. t @ ''-cascade-retry-'' @ toString (int j + 1)) [nat (i + 1)..<nat count]"
      using "1.IH" [OF True] "1.prems" by linarith
    have lt: "nat i < nat count" using True "1.prems" by linarith
    have suc: "nat (i + 1) = Suc (nat i)" using "1.prems" by linarith
    have upt: "[nat i..<nat count] = nat i # [nat (i + 1)..<nat count]"
      unfolding suc using lt by (rule upt_conv_Cons)
    have nm: "int (nat i) + 1 = i + 1" using "1.prems" by linarith
    show ?thesis
      unfolding step ih upt by (simp only: list.map nm append_assoc append.simps)
  next
    case False
    have "push_levels t i count xs = xs"
      using False by (subst push_levels.simps) simp
    moreover have "[nat i..<nat count] = []"
      using False "1.prems" by simp
    ultimately show ?thesis by simp
  qed
qed

lemma spec_level_names_take:
  "m \<le> n \<Longrightarrow> take m (spec_level_names t n) = spec_level_names t m"
  by (simp add: spec_level_names_def take_map)

lemma spec_level_names_grow:
  "m \<le> n \<Longrightarrow>
   spec_level_names t m @ map (\<lambda>j. t @ ''-cascade-retry-'' @ toString (int j + 1)) [m..<n]
     = spec_level_names t n"
proof -
  assume "m \<le> n"
  then have "[0..<n] = [0..<m] @ [m..<n]"
    using upt_add_eq_append [of 0 m "n - m"] by simp
  then show ?thesis
    by (simp add: spec_level_names_def)
qed

lemma length_spec_level_names [simp]: "length (spec_level_names t n) = n"
  by (simp add: spec_level_names_def)

lemma resize_levels_names:
  assumes "consistent s" and "0 \<le> count"
  shows "topicsArr (resize_levels count opts s) = spec_level_names (topic s) (nat count)"
proof (cases "int (length (topicsArr s)) > count")
  case True
  then have le: "nat count \<le> length (topicsArr s)" by linarith
  have "length (topicsArr s) - nat (int (length (topicsArr s)) - count) = nat count"
    using True assms(2) by linarith
  then have "topicsArr (resize_levels count opts s)
      = take (nat count) (topicsArr s)"
    using True by (simp add: resize_levels_def pop_times_take Let_def)
  also have "\<dots> = take (nat count) (spec_level_names (topic s) (length (topicsArr s)))"
    using assms(1) by (simp add: consistent_def)
  also have "\<dots> = spec_level_names (topic s) (nat count)"
    using le by (rule spec_level_names_take)
  finally show ?thesis .
next
  case False
  then have le: "length (topicsArr s) \<le> nat count" by linarith
  have r: "retries s = int (length (topicsArr s))"
    using assms(1) by (simp add: consistent_def)
  have "topicsArr (resize_levels count opts s)
      = topicsArr s @ map (\<lambda>j. topic s @ ''-cascade-retry-'' @ toString (int j + 1))
          [length (topicsArr s)..<nat count]"
    using False by (simp add: resize_levels_def Let_def r push_levels_append)
  also have "\<dots> = spec_level_names (topic s) (length (topicsArr s))
      @ map (\<lambda>j. topic s @ ''-cascade-retry-'' @ toString (int j + 1))
          [length (topicsArr s)..<nat count]"
    using assms(1) by (simp add: consistent_def)
  also have "\<dots> = spec_level_names (topic s) (nat count)"
    using le by (rule spec_level_names_grow)
  finally show ?thesis .
qed

lemma resize_levels_fields [simp]:
  "retries (resize_levels count opts s) = count"
  "topic (resize_levels count opts s) = topic s"
  "listeners (resize_levels count opts s) = listeners s"
  "retryTopics (producer (resize_levels count opts s)) = topicsArr (resize_levels count opts s)"
  "paused (producer (resize_levels count opts s)) = paused (producer s)"
  by (simp_all add: resize_levels_def Let_def setRetryTopics_def)

lemma resize_levels_consistent:
  assumes "consistent s" and "0 \<le> count"
  shows "consistent (resize_levels count opts s)"
  using resize_levels_names [OF assms] assms(2) by (simp add: consistent_def)

lemma fst_setRetryLevels [simp]:
  "fst (setRetryLevels en count opts s) = resize_levels count opts s"
  by (simp add: setRetryLevels_def Let_def)

lemma fst_pause_fields [simp]:
  "retries (fst (pause en s)) = retries s"
  "topic (fst (pause en s)) = topic s"
  "topicsArr (fst (pause en s)) = topicsArr s"
  "listeners (fst (pause en s)) = listeners s"
  by (simp_all add: pause_def Let_def)

lemma fst_resume_fields [simp]:
  "retries (fst (resume en s)) = retries s"
  "topic (fst (resume en s)) = topic s"
  "topicsArr (fst (resume en s)) = topicsArr s"
  "listeners (fst (resume en s)) = listeners s"
  by (simp_all add: resume_def Let_def)

lemma fst_on_fields [simp]:
  "retries (fst (on ev cb s)) = retries s"
  "topic (fst (on ev cb s)) = topic s"
  "topicsArr (fst (on ev cb s)) = topicsArr s"
  "producer (fst (on ev cb s)) = producer s"
  by (simp_all add: on_def)

lemma exec_topic [simp]: "topic (exec en x s) = topic s"
  by (cases x) simp_all

lemma exec_consistent:
  "consistent s \<Longrightarrow> valid_op x \<Longrightarrow> consistent (exec en x s)"
  by (cases x) (simp_all add: resize_levels_consistent, simp_all add: consistent_def)

lemma execs_topic [simp]: "topic (execs h s) = topic s"
  by (induction h arbitrary: s) simp_all

lemma execs_consistent:
  "consistent s \<Longrightarrow> valid_history h \<Longrightarrow> consistent (execs h s)"
  by (induction h arbitrary: s) (simp_all add: valid_history_def exec_consistent)

lemma CascadeService_consistent: "consistent (CascadeService t)"
  by (simp add: consistent_def CascadeService_def spec_level_names_def)

subsection \<open>Level names after setRetryLevels\<close>

text \<open>
  C1. For every non-negative integer \<open>N\<close>, after \<^verbatim>\<open>setRetryLevels(N)\<close> the array
  \<^verbatim>\<open>topicsArr\<close> has exactly \<open>N\<close> entries and entry \<open>i\<close> (0-based) is
  \<^verbatim>\<open><topic>-cascade-retry-<i+1>\<close>, whatever calls came before, in any order and
  whether or not their topic registration succeeded (earlier \<^verbatim>\<open>setRetryLevels\<close> calls
  too being given non-negative integers, as the configuration surface declares). The
  state is the same whether the call itself resolves or its registration fails.
\<close>

theorem setRetryLevels_names:
  assumes "valid_history h" and "0 \<le> N"
  shows "length (topicsArr (fst (setRetryLevels en N opts (execs h (CascadeService t))))) = nat N
       \<and> (\<forall>i < nat N. topicsArr (fst (setRetryLevels en N opts (execs h (CascadeService t)))) ! i
             = t @ ''-cascade-retry-'' @ toString (int i + 1))"
proof -
  have "consistent (execs h (CascadeService t))"
    using CascadeService_consistent assms(1) by (rule execs_consistent)
  then have "topicsArr (fst (setRetryLevels en N opts (execs h (CascadeService t))))
      = spec_level_names t (nat N)"
    using assms(2) by (simp add: resize_levels_names CascadeService_def)
  then show ?thesis
    by (simp add: spec_level_names_def)
qed

theorem setRetryLevels_names_witness:
  "valid_history [(all_ok, SetRetryLevels 5 None), (all_ok, Pause), (all_ok, SetRetryLevels 2 None)]
   \<and> (0::int) \<le> 4
   \<and> length (topicsArr (fst (setRetryLevels all_ok 4 None
         (execs [(all_ok, SetRetryLevels 5 None), (all_ok, Pause), (all_ok, SetRetryLevels 2 None)]
            (CascadeService ''t''))))) = 4
   \<and> topicsArr (fst (setRetryLevels all_ok 4 None
         (execs [(all_ok, SetRetryLevels 5 None), (all_ok, Pause), (all_ok, SetRetryLevels 2 None)]
            (CascadeService ''t'')))) ! 3 = ''t-cascade-retry-4''"
proof -
  have h: "valid_history
      [(all_ok, SetRetryLevels 5 None), (all_ok, Pause), (all_ok, SetRetryLevels 2 None)]"
    by (simp add: valid_history_def)
  have n: "(0::int) \<le> 4" by simp
  have d: "toString (int 3 + 1) = ''4''"
    by (simp add: toString_def digits.simps)
  have "(3::nat) < nat 4" by simp
  with setRetryLevels_names [OF h n, of all_ok None "''t''"] d h show ?thesis
    by simp
qed

subsection \<open>The retries field\<close>




subsection \<open>Traces and emit\<close>

lemma precedes_absent: "b \<notin> set tr \<Longrightarrow> precedes a b tr"
  by (induction tr) auto

lemma precedes_index:
  "a \<noteq> b \<Longrightarrow> precedes a b tr \<longleftrightarrow> (\<forall>i < length tr. tr ! i = b \<longrightarrow> (\<exists>j < i. tr ! j = a))"
proof (induction tr)
  case Nil
  show ?case by simp
next
  case (Cons x xs)
  show ?case
  proof (cases "x = a")
    case True
    have "\<exists>j < i. (x # xs) ! j = a" if "(x # xs) ! i = b" for i
    proof -
      from that True Cons.prems have "i \<noteq> 0" by (cases i) auto
      with True show ?thesis by (intro exI [of _ 0]) simp
    qed
    with True show ?thesis by simp
  next
    case xa: False
    show ?thesis
    proof (cases "x = b")
      case True
      then have "(x # xs) ! 0 = b \<and> \<not> (\<exists>j < (0::nat). (x # xs) ! j = a)" by simp
      then have "\<not> (\<forall>i < length (x # xs). (x # xs) ! i = b \<longrightarrow> (\<exists>j < i. (x # xs) ! j = a))"
        by (metis length_greater_0_conv list.distinct(1))
      with xa True show ?thesis by simp
    next
      case xb: False
      have "(\<forall>i < length (x # xs). (x # xs) ! i = b \<longrightarrow> (\<exists>j < i. (x # xs) ! j = a))
          \<longleftrightarrow> (\<forall>i < length xs. xs ! i = b \<longrightarrow> (\<exists>j < i. xs ! j = a))" (is "?L \<longleftrightarrow> ?R")
      proof
        assume L: ?L
        show ?R
        proof (intro allI impI)
          fix i assume "i < length xs" "xs ! i = b"
          then have "Suc i < length (x # xs)" "(x # xs) ! Suc i = b" by simp_all
          with L obtain j where j: "j < Suc i" "(x # xs) ! j = a" by blast
          with xa obtain j' where "j = Suc j'" by (cases j) auto
          with j show "\<exists>j < i. xs ! j = a" by auto
        qed
      next
        assume R: ?R
        show ?L
        proof (intro allI impI)
          fix i assume i: "i < length (x # xs)" "(x # xs) ! i = b"
          with xb obtain i' where i': "i = Suc i'" by (cases i) auto
          with i have "i' < length xs" "xs ! i' = b" by simp_all
          with R obtain j where "j < i'" "xs ! j = a" by blast
          then have "Suc j < i" "(x # xs) ! Suc j = a" using i' by simp_all
          then show "\<exists>j < i. (x # xs) ! j = a" by blast
        qed
      qed
      with xa xb Cons show ?thesis by simp
    qed
  qed
qed

lemma emit_other [simp]:
  "ev \<noteq> ''error'' \<Longrightarrow> emit ev a s = (Emit ev a # map (\<lambda>cb. Invoke cb a) (listeners_of ev s), Inr ())"
  by (simp add: emit_def)

lemma not_in_invokes [simp]:
  "Emit ev a \<notin> set (map (\<lambda>cb. Invoke cb x) ls)"
  "Call c \<notin> set (map (\<lambda>cb. Invoke cb x) ls)"
  "Returned c \<notin> set (map (\<lambda>cb. Invoke cb x) ls)"
  "Threw c e \<notin> set (map (\<lambda>cb. Invoke cb x) ls)"
  "EmitThrew e \<notin> set (map (\<lambda>cb. Invoke cb x) ls)"
  "Log l \<notin> set (map (\<lambda>cb. Invoke cb x) ls)"
  by auto

lemma connect_trace:
  "fst (connect en s) =
     (case throws en ProducerConnect of
        Some e \<Rightarrow> [Call ProducerConnect, Threw ProducerConnect e]
                  @ fst (emit ''error'' (error_message ''Error in cascade.connect(): '' e) s)
      | None \<Rightarrow>
         (case throws en ConsumerConnect of
            Some e \<Rightarrow> [Call ProducerConnect, Returned ProducerConnect,
                        Call ConsumerConnect, Threw ConsumerConnect e]
                       @ fst (emit ''error'' (error_message ''Error in cascade.connect(): '' e) s)
          | None \<Rightarrow> [Call ProducerConnect, Returned ProducerConnect,
                      Call ConsumerConnect, Returned ConsumerConnect, Emit ''connect'' NoArg]
                     @ map (\<lambda>cb. Invoke cb NoArg) (listeners_of ''connect'' s)))"
  by (simp add: connect_def settle_def and_then_def await_def ret_def
      split: option.splits prod.splits sum.splits)

lemma emit_error_absent [simp]:
  "Call c \<notin> set (fst (emit ''error'' a s))"
  "Returned c \<notin> set (fst (emit ''error'' a s))"
  "ev \<noteq> ''error'' \<Longrightarrow> Emit ev x \<notin> set (fst (emit ''error'' a s))"
  by (auto simp: emit_def)

subsection \<open>pause and resume in the state already reached\<close>

text \<open>
  C3. Calling \<^verbatim>\<open>pause()\<close> while \<^verbatim>\<open>producer.paused\<close> is true leaves the service as it
  is and does nothing but write one line to the console: no \<^verbatim>\<open>pause\<close> event, no call
  of \<^verbatim>\<open>consumer.pause\<close> or \<^verbatim>\<open>producer.pause\<close>; the promise resolves. The same holds
  for \<^verbatim>\<open>resume()\<close> while \<^verbatim>\<open>producer.paused\<close> is false.
\<close>

theorem pause_resume_noop:
  "(paused (producer s) \<longrightarrow>
      pause en s = (s, [Log ''cascade.pause() called while service is already paused!''],
                    Resolved VUndefined))
   \<and> (\<not> paused (producer s) \<longrightarrow>
      resume en s = (s, [Log ''cascade.resume() called while service is already running!''],
                     Resolved VUndefined))"
  by (simp add: pause_def resume_def)

theorem pause_resume_noop_witness:
  "paused (producer (fst (pause all_ok (CascadeService ''t''))))
   \<and> pause all_ok (fst (pause all_ok (CascadeService ''t'')))
       = (fst (pause all_ok (CascadeService ''t'')),
          [Log ''cascade.pause() called while service is already paused!''], Resolved VUndefined)
   \<and> \<not> paused (producer (CascadeService ''t''))
   \<and> resume all_ok (CascadeService ''t'')
       = (CascadeService ''t'',
          [Log ''cascade.resume() called while service is already running!''], Resolved VUndefined)"
proof -
  have p: "paused (producer (fst (pause all_ok (CascadeService ''t''))))"
    by (simp add: pause_def CascadeService_def all_ok_def producer_pause_def Let_def)
  have r: "\<not> paused (producer (CascadeService ''t''))"
    by (simp add: CascadeService_def)
  from pause_resume_noop [of "fst (pause all_ok (CascadeService ''t''))" all_ok] p
    pause_resume_noop [of "CascadeService ''t''" all_ok] r
  show ?thesis by simp
qed

subsection \<open>The order of connect\<close>

text \<open>
  C4. In every execution of \<^verbatim>\<open>connect()\<close>, whatever the collaborators do and whatever
  listeners are registered: the producer's connect has returned before the consumer's
  connect is called (and the consumer's is called only if the producer's returned),
  and the \<^verbatim>\<open>connect\<close> event is emitted exactly when both returned, after both.
\<close>

theorem connect_order:
  "precedes (Returned ProducerConnect) (Call ConsumerConnect) (fst (connect en s))
   \<and> precedes (Returned ProducerConnect) (Emit ''connect'' NoArg) (fst (connect en s))
   \<and> precedes (Returned ConsumerConnect) (Emit ''connect'' NoArg) (fst (connect en s))
   \<and> (Call ConsumerConnect \<in> set (fst (connect en s)) \<longleftrightarrow> throws en ProducerConnect = None)
   \<and> (Emit ''connect'' NoArg \<in> set (fst (connect en s))
        \<longleftrightarrow> throws en ProducerConnect = None \<and> throws en ConsumerConnect = None)"
proof (cases "throws en ProducerConnect")
  case None
  show ?thesis
  proof (cases "throws en ConsumerConnect")
    case n2: None
    with None show ?thesis by (simp add: connect_trace)
  next
    case (Some e)
    with None show ?thesis by (simp add: connect_trace precedes_absent)
  qed
next
  case (Some e)
  then show ?thesis by (simp add: connect_trace precedes_absent)
qed

theorem connect_order_witness:
  "precedes (Returned ProducerConnect) (Call ConsumerConnect)
     (fst (connect all_ok (CascadeService ''t'')))
   \<and> Call ConsumerConnect \<in> set (fst (connect all_ok (CascadeService ''t'')))
   \<and> Emit ''connect'' NoArg \<in> set (fst (connect all_ok (CascadeService ''t'')))
   \<and> Call ConsumerConnect \<notin> set (fst (connect (failing ProducerConnect (Thrown ''Error: down''))
         (CascadeService ''t'')))"
  using connect_order [of all_ok "CascadeService ''t''"]
    connect_order [of "failing ProducerConnect (Thrown ''Error: down'')" "CascadeService ''t''"]
  by (simp add: all_ok_def failing_def)


subsection \<open>Registering listeners\<close>

lemma listeners_of_on:
  "listeners_of ev (s\<lparr>listeners := listeners s @ [(event, cb)]\<rparr>)
     = (if ev = event then listeners_of ev s @ [cb] else listeners_of ev s)"
  by (simp add: listeners_of_def)

text \<open>
  C5. \<^verbatim>\<open>on(event, callback)\<close> throws (\<^verbatim>\<open>Error('Unknown event: ' + event)\<close>, the spec's
  \<^verbatim>\<open>UnknownEventError\<close>) and leaves the service, its listener table included, as it
  was whenever \<^verbatim>\<open>event\<close> is not one of the twelve recognised names; for each of the
  twelve it does not throw and appends the callback to that event's listeners,
  leaving the listeners of every other event as they were.
\<close>

theorem on_event_set:
  "(event \<notin> set events \<longrightarrow>
       on event cb s = (s, Some (Thrown (''Error: Unknown event: '' @ event))))
   \<and> (event \<in> set events \<longrightarrow>
       snd (on event cb s) = None
       \<and> listeners_of event (fst (on event cb s)) = listeners_of event s @ [cb]
       \<and> (\<forall>ev. ev \<noteq> event \<longrightarrow> listeners_of ev (fst (on event cb s)) = listeners_of ev s))
   \<and> set events = {''connect'', ''disconnect'', ''run'', ''stop'', ''pause'', ''resume'',
        ''receive'', ''success'', ''retry'', ''dlq'', ''error'', ''serviceError''}"
proof -
  have "set events = {''connect'', ''disconnect'', ''run'', ''stop'', ''pause'', ''resume'',
        ''receive'', ''success'', ''retry'', ''dlq'', ''error'', ''serviceError''}"
    by (simp add: events_def)
  moreover have "event \<notin> set events \<longrightarrow>
       on event cb s = (s, Some (Thrown (''Error: Unknown event: '' @ event)))"
    by (simp add: on_def)
  moreover have "event \<in> set events \<longrightarrow>
       snd (on event cb s) = None
       \<and> listeners_of event (fst (on event cb s)) = listeners_of event s @ [cb]
       \<and> (\<forall>ev. ev \<noteq> event \<longrightarrow> listeners_of ev (fst (on event cb s)) = listeners_of ev s)"
    by (simp add: on_def listeners_of_on)
  ultimately show ?thesis by blast
qed

theorem on_event_set_witness:
  "''message'' \<notin> set events
   \<and> on ''message'' 1 (CascadeService ''t'')
       = (CascadeService ''t'', Some (Thrown ''Error: Unknown event: message''))
   \<and> ''serviceError'' \<in> set events
   \<and> snd (on ''serviceError'' 1 (CascadeService ''t'')) = None
   \<and> listeners_of ''serviceError'' (fst (on ''serviceError'' 1 (CascadeService ''t''))) = [1]"
proof -
  have a: "''message'' \<notin> set events" by (simp add: events_def)
  have b: "''serviceError'' \<in> set events" by (simp add: events_def)
  have c: "listeners_of ''serviceError'' (CascadeService ''t'') = []"
    by (simp add: listeners_of_def CascadeService_def)
  from on_event_set [of "''message''" 1 "CascadeService ''t''"]
    on_event_set [of "''serviceError''" 1 "CascadeService ''t''"] a b c
  show ?thesis by simp
qed

subsection \<open>The success path\<close>

lemma run_onSuccess_trace:
  "run_onSuccess s msg =
     (Emit ''success'' (Msg msg) # map (\<lambda>cb. Invoke cb (Msg msg)) (listeners_of ''success'' s)
        @ [Call (SuccessCB msg), Returned (SuccessCB msg)], Inr ())"
  by (simp add: run_onSuccess_def and_then_def invoke_def)

lemma count_list_invokes [simp]:
  "count_list (map (\<lambda>cb. Invoke cb x) ls) (Emit ev a) = 0"
  "count_list (map (\<lambda>cb. Invoke cb x) ls) (Call c) = 0"
  by (induction ls) simp_all

text \<open>
  C8. The success callback that \<^verbatim>\<open>run()\<close> hands to the consumer emits \<^verbatim>\<open>success\<close> with
  the message and then calls the user's \<^verbatim>\<open>successCB\<close> with it: each happens exactly
  once per invocation, the event first, and no other \<^verbatim>\<open>success\<close> event or
  \<^verbatim>\<open>successCB\<close> call occurs.
\<close>

theorem success_then_callback:
  "count_list (fst (run_onSuccess s msg)) (Emit ''success'' (Msg msg)) = 1
   \<and> count_list (fst (run_onSuccess s msg)) (Call (SuccessCB msg)) = 1
   \<and> precedes (Emit ''success'' (Msg msg)) (Call (SuccessCB msg)) (fst (run_onSuccess s msg))
   \<and> (\<forall>a. Emit ''success'' a \<in> set (fst (run_onSuccess s msg)) \<longrightarrow> a = Msg msg)
   \<and> (\<forall>m. Call (SuccessCB m) \<in> set (fst (run_onSuccess s msg)) \<longrightarrow> m = msg)
   \<and> snd (run_onSuccess s msg) = Inr ()"
  by (auto simp: run_onSuccess_trace)

theorem success_then_callback_witness:
  "fst (run_onSuccess (fst (on ''success'' 5 (CascadeService ''t''))) \<lparr>payload = ''p'', retries_hdr = None\<rparr>)
     = [Emit ''success'' (Msg \<lparr>payload = ''p'', retries_hdr = None\<rparr>),
        Invoke 5 (Msg \<lparr>payload = ''p'', retries_hdr = None\<rparr>),
        Call (SuccessCB \<lparr>payload = ''p'', retries_hdr = None\<rparr>),
        Returned (SuccessCB \<lparr>payload = ''p'', retries_hdr = None\<rparr>)]
   \<and> count_list (fst (run_onSuccess (fst (on ''success'' 5 (CascadeService ''t'')))
         \<lparr>payload = ''p'', retries_hdr = None\<rparr>))
         (Call (SuccessCB \<lparr>payload = ''p'', retries_hdr = None\<rparr>)) = 1"
  using success_then_callback [of "fst (on ''success'' 5 (CascadeService ''t''))"
      "\<lparr>payload = ''p'', retries_hdr = None\<rparr>"]
  by (simp add: run_onSuccess_trace on_def events_def listeners_of_def CascadeService_def)

subsection \<open>Routing in the producer\<close>

text \<open>
  C2. For a message whose \<^verbatim>\<open>retries\<close> metadata is \<open>k\<close> (0 when absent) and a
  retry-level list of length \<open>N\<close>: if \<open>k < N\<close>, \<^verbatim>\<open>send\<close> publishes to the list entry
  at index \<open>k\<close> a message whose \<^verbatim>\<open>retries\<close> is \<open>k + 1\<close> and, the broker having taken
  it, emits \<^verbatim>\<open>retry\<close> with that outgoing message; if \<open>k \<ge> N\<close>, it calls the
  dead-letter callback with the message and emits \<^verbatim>\<open>dlq\<close>.
\<close>

theorem send_routes:
  assumes "k = (case retries_hdr msg of None \<Rightarrow> 0 | Some r \<Rightarrow> r)"
    and "N = length (retryTopics p)"
    and "out = msg\<lparr>retries_hdr := Some (k + 1)\<rparr>"
  shows "(k < N \<longrightarrow>
            take 1 (send en msg p) = [Call (Publish (retryTopics p ! k) out)]
          \<and> (throws en (Publish (retryTopics p ! k) out) = None \<longrightarrow>
               send en msg p = [Call (Publish (retryTopics p ! k) out),
                                Returned (Publish (retryTopics p ! k) out),
                                Emit ''retry'' (Msg out)]))
       \<and> (N \<le> k \<longrightarrow>
            send en msg p = [Call (DlqCB msg), Returned (DlqCB msg), Emit ''dlq'' (Msg msg)])"
  using assms by (simp add: send_def await_def Let_def split: option.splits)

theorem send_routes_witness:
  "send all_ok \<lparr>payload = ''p'', retries_hdr = Some 1\<rparr>
       \<lparr>retryTopics = [''t-cascade-retry-1'', ''t-cascade-retry-2''], paused = False\<rparr>
     = [Call (Publish ''t-cascade-retry-2'' \<lparr>payload = ''p'', retries_hdr = Some 2\<rparr>),
        Returned (Publish ''t-cascade-retry-2'' \<lparr>payload = ''p'', retries_hdr = Some 2\<rparr>),
        Emit ''retry'' (Msg \<lparr>payload = ''p'', retries_hdr = Some 2\<rparr>)]
   \<and> send all_ok \<lparr>payload = ''p'', retries_hdr = Some 2\<rparr>
       \<lparr>retryTopics = [''t-cascade-retry-1'', ''t-cascade-retry-2''], paused = False\<rparr>
     = [Call (DlqCB \<lparr>payload = ''p'', retries_hdr = Some 2\<rparr>),
        Returned (DlqCB \<lparr>payload = ''p'', retries_hdr = Some 2\<rparr>),
        Emit ''dlq'' (Msg \<lparr>payload = ''p'', retries_hdr = Some 2\<rparr>)]"
  using send_routes [of 1 "\<lparr>payload = ''p'', retries_hdr = Some 1\<rparr>" 2
      "\<lparr>retryTopics = [''t-cascade-retry-1'', ''t-cascade-retry-2''], paused = False\<rparr>"
      "\<lparr>payload = ''p'', retries_hdr = Some 2\<rparr>" all_ok]
    send_routes [of 2 "\<lparr>payload = ''p'', retries_hdr = Some 2\<rparr>" 2
      "\<lparr>retryTopics = [''t-cascade-retry-1'', ''t-cascade-retry-2''], paused = False\<rparr>"
      "\<lparr>payload = ''p'', retries_hdr = Some 3\<rparr>" all_ok]
  by (simp add: all_ok_def)

subsection \<open>Failures of lifecycle methods\<close>

lemma snd_and_then:
  "snd (and_then m f) = (case snd m of Inl e \<Rightarrow> Inl e | Inr x \<Rightarrow> snd (f x))"
  by (cases m) (auto simp: and_then_def split: sum.splits prod.splits)

lemma fst_and_then:
  "fst (and_then m f) = fst m @ (case snd m of Inl e \<Rightarrow> [] | Inr x \<Rightarrow> fst (f x))"
  by (cases m) (auto simp: and_then_def split: sum.splits prod.splits)

lemma snd_await: "snd (await en c) = (case throws en c of None \<Rightarrow> Inr () | Some e \<Rightarrow> Inl e)"
  by (simp add: await_def split: option.splits)

lemma fst_await:
  "fst (await en c) = (case throws en c of None \<Rightarrow> [Call c, Returned c] | Some e \<Rightarrow> [Call c, Threw c e])"
  by (simp add: await_def split: option.splits)

lemma snd_simple [simp]:
  "snd (log l) = Inr ()" "snd (invoke c) = Inr ()" "snd (ret x) = Inr x"
  "fst (log l) = [Log l]" "fst (invoke c) = [Call c, Returned c]" "fst (ret x) = []"
  by (simp_all add: log_def invoke_def ret_def)

lemma snd_settle:
  "snd (settle prefix s m) =
     (case snd m of
        Inr v \<Rightarrow> Resolved v
      | Inl e \<Rightarrow> if listeners_of ''error'' s = [] then Unsettled else Rejected e)"
  by (cases m) (auto simp: settle_def emit_def split: sum.splits)

lemma fst_settle:
  "fst (settle prefix s m) =
     fst m @ (case snd m of
                Inr v \<Rightarrow> []
              | Inl e \<Rightarrow> fst (emit ''error'' (error_message prefix e) s))"
  by (cases m) (auto simp: settle_def split: sum.splits prod.splits)

lemma listeners_of_resize_levels [simp]:
  "listeners_of ev (resize_levels count opts s) = listeners_of ev s"
  by (simp add: listeners_of_def)

text \<open>
  How each lifecycle promise ends. With at least one \<^verbatim>\<open>error\<close> listener registered, a
  failing sub-operation rejects the promise with the thrown value; with none, the
  promise is left unsettled.
\<close>

lemma lifecycle_outcomes:
  "snd (connect en s) =
     (case first_failure en [ProducerConnect, ConsumerConnect] of
        None \<Rightarrow> Resolved VTrue
      | Some e \<Rightarrow> if listeners_of ''error'' s = [] then Unsettled else Rejected e)"
  "snd (disconnect en s) =
     (case first_failure en [ProducerStop, ProducerDisconnect, ConsumerDisconnect] of
        None \<Rightarrow> Resolved VTrue
      | Some e \<Rightarrow> if listeners_of ''error'' s = [] then Unsettled else Rejected e)"
  "snd (run en s) =
     (case first_failure en [ConsumerRun] of
        None \<Rightarrow> Resolved (VStatus (run_status en))
      | Some e \<Rightarrow> if listeners_of ''error'' s = [] then Unsettled else Rejected e)"
  "snd (stop en s) =
     (case first_failure en [ConsumerStop, ProducerStop] of
        None \<Rightarrow> Resolved VTrue
      | Some e \<Rightarrow> if listeners_of ''error'' s = [] then Unsettled else Rejected e)"
  "snd (snd (setRetryLevels en count opts s)) =
     (case first_failure en [KafkaAdmin, AdminConnect,
             AdminCreateTopics (topicsArr (resize_levels count opts s)), NewRegExp,
             AdminListTopics, AdminDisconnect] of
        None \<Rightarrow> Resolved VTrue
      | Some e \<Rightarrow> if listeners_of ''error'' s = [] then Unsettled else Rejected e)"
  by (simp_all add: connect_def disconnect_def run_def stop_def setRetryLevels_def
      register_topics_def Let_def snd_settle snd_and_then snd_await
      split: option.splits)


text \<open>
  The working branches of \<^verbatim>\<open>pause()\<close> and \<^verbatim>\<open>resume()\<close> end the same way; a
  rejection of the awaited \<^verbatim>\<open>producer.resume()\<close> is a failure like any other.
\<close>

lemma pause_resume_outcomes:
  "\<not> paused (producer s) \<Longrightarrow> snd (snd (pause en s)) =
     (case first_failure en [ConsumerPause] of
        None \<Rightarrow> Resolved VTrue
      | Some e \<Rightarrow> if listeners_of ''error'' s = [] then Unsettled else Rejected e)"
  "paused (producer s) \<Longrightarrow> snd (snd (resume en s)) =
     (case first_failure en [ConsumerResume, ProducerResume] of
        None \<Rightarrow> Resolved VTrue
      | Some e \<Rightarrow> if listeners_of ''error'' s = [] then Unsettled else Rejected e)"
  "paused (producer s) \<Longrightarrow> paused (producer (fst (resume en s))) \<longleftrightarrow>
     first_failure en [ConsumerResume, ProducerResume] \<noteq> None"
  by (auto simp: pause_def resume_def Let_def snd_settle snd_and_then snd_await
      listeners_of_def producer_resume_def split: option.splits)

text \<open>
  When the \<^verbatim>\<open>error\<close> event reaches listeners, and with which message: exactly when a
  sub-operation failed and a listener is registered, the message being the method's
  prefix followed by the thrown value.
\<close>

lemma lifecycle_error_events:
  "Emit ''error'' a \<in> set (fst (connect en s)) \<longleftrightarrow>
     listeners_of ''error'' s \<noteq> [] \<and>
     (\<exists>e. first_failure en [ProducerConnect, ConsumerConnect] = Some e
          \<and> a = error_message ''Error in cascade.connect(): '' e)"
  "Emit ''error'' a \<in> set (fst (disconnect en s)) \<longleftrightarrow>
     listeners_of ''error'' s \<noteq> [] \<and>
     (\<exists>e. first_failure en [ProducerStop, ProducerDisconnect, ConsumerDisconnect] = Some e
          \<and> a = error_message ''Error in cascade.disconnect(): '' e)"
  "Emit ''error'' a \<in> set (fst (run en s)) \<longleftrightarrow>
     listeners_of ''error'' s \<noteq> [] \<and>
     (\<exists>e. first_failure en [ConsumerRun] = Some e \<and> a = error_message ''Error in cascade.run(): '' e)"
  "Emit ''error'' a \<in> set (fst (stop en s)) \<longleftrightarrow>
     listeners_of ''error'' s \<noteq> [] \<and>
     (\<exists>e. first_failure en [ConsumerStop, ProducerStop] = Some e
          \<and> a = error_message ''Error in cascade.stop(): '' e)"
  by (auto simp: connect_def disconnect_def run_def stop_def
      fst_settle fst_and_then snd_and_then snd_await fst_await emit_def
      split: option.splits)

lemma setRetryLevels_error_event:
  "Emit ''error'' a \<in> set (fst (snd (setRetryLevels en count opts s))) \<longleftrightarrow>
     listeners_of ''error'' s \<noteq> [] \<and>
     (\<exists>e. first_failure en [KafkaAdmin, AdminConnect,
             AdminCreateTopics (topicsArr (resize_levels count opts s)), NewRegExp,
             AdminListTopics, AdminDisconnect] = Some e
          \<and> a = error_message ''Error in cascade.setRetryLevels(): '' e)"
  by (auto simp: setRetryLevels_def register_topics_def Let_def
      fst_settle fst_and_then snd_and_then snd_await fst_await emit_def
      split: option.splits)

text \<open>
  C6. A service on which no \<^verbatim>\<open>error\<close> listener has been registered, whose producer
  fails to connect: the handler's \<^verbatim>\<open>emit('error', ...)\<close> throws, \<^verbatim>\<open>reject\<close> is not
  reached, and the promise returned by \<^verbatim>\<open>connect()\<close> is neither resolved nor
  rejected; no listener has seen an \<^verbatim>\<open>error\<close> event either.
\<close>

theorem connect_unsettled_without_listener:
  "connect (failing ProducerConnect (Thrown ''Error: broker down'')) (CascadeService ''t'')
     = ([Call ProducerConnect, Threw ProducerConnect (Thrown ''Error: broker down''),
         EmitThrew (ERR_UNHANDLED_ERROR (Str ''Error in cascade.connect(): Error: broker down''))],
        Unsettled)"
  by (simp add: connect_def settle_def and_then_def await_def emit_def failing_def
      listeners_of_def CascadeService_def)

subsection \<open>The failure path\<close>

text \<open>
  How the failure callback that \<^verbatim>\<open>run()\<close> hands to the consumer ends when
  \<^verbatim>\<open>producer.send\<close> throws: with an \<^verbatim>\<open>error\<close> listener registered the error is
  turned into an \<^verbatim>\<open>error\<close> event and the callback's promise resolves; with none the
  promise rejects.
\<close>

lemma run_onFailure_outcome:
  "snd (run_onFailure en s msg) =
     (case throws en (ProducerSend msg) of
        None \<Rightarrow> Resolved VUndefined
      | Some e \<Rightarrow>
          if listeners_of ''error'' s = []
          then Rejected (ERR_UNHANDLED_ERROR (error_message ''Error in cascade producer.send(): '' e))
          else Resolved VUndefined)"
  "(Emit ''error'' a \<in> set (fst (run_onFailure en s msg))) \<longleftrightarrow>
     listeners_of ''error'' s \<noteq> [] \<and>
     (\<exists>e. throws en (ProducerSend msg) = Some e \<and> a = error_message ''Error in cascade producer.send(): '' e)"
  by (auto simp: run_onFailure_def await_def emit_def split: option.splits)

text \<open>
  C7. A service on which no \<^verbatim>\<open>error\<close> listener has been registered, whose
  \<^verbatim>\<open>producer.send\<close> throws while routing a failed message: the handler's
  \<^verbatim>\<open>emit('error', ...)\<close> throws in turn and the failure callback's promise rejects, so
  the failure leaves the callback.
\<close>

theorem run_onFailure_rejects_without_listener:
  "run_onFailure (failing (ProducerSend \<lparr>payload = ''p'', retries_hdr = None\<rparr>)
          (Thrown ''Error: broker down''))
       (CascadeService ''t'') \<lparr>payload = ''p'', retries_hdr = None\<rparr>
     = ([Call (ProducerSend \<lparr>payload = ''p'', retries_hdr = None\<rparr>),
         Threw (ProducerSend \<lparr>payload = ''p'', retries_hdr = None\<rparr>)
           (Thrown ''Error: broker down''),
         EmitThrew (ERR_UNHANDLED_ERROR
           (Str ''Error in cascade producer.send(): Error: broker down''))],
        Rejected (ERR_UNHANDLED_ERROR
           (Str ''Error in cascade producer.send(): Error: broker down'')))"
  by (simp add: run_onFailure_def await_def emit_def failing_def
      listeners_of_def CascadeService_def)


end
